theory Spec2Isabelle
  imports Main "HOL-Library.Multiset"
begin

section \<open>The ConfigMap client of pkg/configurator (client.go)\<close>

text \<open>
  The client mirrors one ConfigMap of the cluster in an informer store, closes a channel
  once the store has synced, filters the observed objects by namespace, and decodes the
  payload of the ConfigMap into an \<open>osmConfig\<close> on demand.

  Go panics are values of the type \<open>panic\<close>: a function that can panic returns
  \<open>panic + 'a\<close>, with \<open>Inl\<close> for the panic. The calls to the logger are left out: they
  change nothing a caller of the client reads.
\<close>

subsection \<open>Panics\<close>

datatype panic =
    TypeAssertionFailed
  | CloseOfClosedChannel
  | SendOnClosedChannel
  | ReflectValueError string

subsection \<open>Go types and values\<close>

text \<open>
  Reflection looks fields up in the type of a value, so values come with their types. A
  struct type has a name and its fields in declaration order; a field has a name, a flag
  saying whether it is embedded, and a type. An embedded field is named after its type.
\<close>

datatype go_type =
    TString
  | TInt
  | TBool
  | TMap string
  | TInterface string
  | TPtr go_type
  | TStruct string "(string \<times> bool \<times> go_type) list"

text \<open>
  A value of interface type is \<open>GoInterface T d\<close>, with \<open>d\<close> the value it holds or \<open>None\<close>
  for nil; the nil \<open>interface{}\<close> is \<open>GoInterface ''interface {}'' None\<close>. \<open>GoNilPtr t\<close> is
  the nil pointer of type \<open>*t\<close>. A struct value lists its fields as its type does.
\<close>

datatype go_value =
    GoString string
  | GoInt int
  | GoBool bool
  | GoMap string "(string \<times> string) list"
  | GoInterface string "go_value option"
  | GoPtr go_value
  | GoNilPtr go_type
  | GoStruct string "(string \<times> bool \<times> go_value) list"



subsection \<open>The records of the package\<close>

text \<open>\<open>osmConfig\<close> (client.go, lines 46 to 57): the shape of the decoded payload.\<close>

record osmConfig =
  ConfigVersion :: int
  PermissiveTrafficPolicyMode :: bool

text \<open>\<open>osmConfig{}\<close>, the zero value of the struct.\<close>

definition osmConfig_zero :: osmConfig where
  "osmConfig_zero = \<lparr>ConfigVersion = 0, PermissiveTrafficPolicyMode = False\<rparr>"

text \<open>
  A \<open>v1.ConfigMap\<close>, reduced to the fields the client reads: the namespace and the name
  of its \<open>ObjectMeta\<close>, and \<open>Data\<close>, a \<open>map[string]string\<close>. The map is kept as the list
  of its entries, with distinct keys; the order of the list is not the order in which a
  \<open>range\<close> loop visits the entries (see \<open>getConfigMap\<close>).
\<close>

record ConfigMap =
  Namespace :: string
  Name :: string
  Data :: "(string \<times> string) list"

text \<open>
  What the store holds is an \<open>interface{}\<close>: a pointer to a ConfigMap, or a value of
  another dynamic type (named by its type string). The store keys an object by the
  namespace and name read from the object itself, so a nil pointer is never stored.
\<close>

datatype item =
    ConfigMapPtr ConfigMap
  | OtherItem string

text \<open>
  A channel: its capacity (\<open>make(chan T)\<close> has capacity 0), the values buffered in it and
  whether it has been closed.
\<close>

record 'a chan =
  capacity :: nat
  buffer :: "'a list"
  closed :: bool

definition make_chan :: "nat \<Rightarrow> 'a chan" where
  "make_chan n = \<lparr>capacity = n, buffer = [], closed = False\<rparr>"

text \<open>\<open>close(ch)\<close>: closing a closed channel panics.\<close>

definition close_chan :: "'a chan \<Rightarrow> panic + 'a chan" where
  "close_chan ch = (if closed ch then Inl CloseOfClosedChannel else Inr (ch\<lparr>closed := True\<rparr>))"

text \<open>
  The \<open>Client\<close> struct, as \<open>NewConfigurator\<close> fills it. The informer is present through
  its store (\<open>cache\<close>, the current content of \<open>informer.GetStore()\<close>, a map from keys to
  items) and through the events the wait of \<open>run\<close> observes.
\<close>

record Client =
  cache :: "string \<rightharpoonup> item"
  cacheSynced :: "go_value chan"
  announcements :: "go_value chan"
  osmNamespace :: string
  osmConfigMapName :: string

subsection \<open>The decoder and the order of a range loop, as parameters\<close>

text \<open>
  \<open>yaml.Unmarshal(config, &conf)\<close> belongs to a library outside the package. It reads
  the bytes, assigns to fields of \<open>conf\<close> and returns an error or nil: a function from the
  bytes and the record before the call to the error and the record after it.
\<close>

datatype decode_error =
    SyntaxError
  | TypeError "string list"

type_synonym unmarshal = "string \<Rightarrow> osmConfig \<Rightarrow> decode_error option \<times> osmConfig"

text \<open>
  Go leaves the order in which \<open>range\<close> visits the entries of a map unspecified, and the
  runtime changes it from one loop to the next. The order of one execution of the loop
  is a parameter: a function from the entries to the sequence in which they are visited,
  well-formed on \<open>es\<close> when it visits every entry of \<open>es\<close> once.
\<close>

type_synonym range_order = "(string \<times> string) list \<Rightarrow> (string \<times> string) list"

definition visits_each_once :: "range_order \<Rightarrow> (string \<times> string) list \<Rightarrow> bool" where
  "visits_each_once order es = (mset (order es) = mset es)"

subsection \<open>\<open>NewConfigurator\<close>, \<open>getConfigMapCacheKey\<close>, \<open>getConfigMap\<close>\<close>

text \<open>
  \<open>NewConfigurator\<close> (lines 17 to 42): both channels are made without a buffer, and the
  store of a new informer is empty.
\<close>

definition NewConfigurator :: "string \<Rightarrow> string \<Rightarrow> Client" where
  "NewConfigurator ns name =
     \<lparr>cache = Map.empty,
      cacheSynced = make_chan 0,
      announcements = make_chan 0,
      osmNamespace = ns,
      osmConfigMapName = name\<rparr>"

text \<open>\<open>fmt.Sprintf("%s/%s", c.osmNamespace, c.osmConfigMapName)\<close> (lines 73 to 75).\<close>

definition getConfigMapCacheKey :: "Client \<Rightarrow> string" where
  "getConfigMapCacheKey c = osmNamespace c @ ''/'' @ osmConfigMapName c"

text \<open>
  \<open>c.cache.GetByKey(key)\<close> on the informer's store: the item, whether it exists, and an
  error that the store never sets.
\<close>

definition GetByKey :: "(string \<rightharpoonup> item) \<Rightarrow> string \<Rightarrow> item option \<times> bool \<times> string option" where
  "GetByKey store key = (store key, store key \<noteq> None, None)"

text \<open>
  The loop of lines 95 to 98: \<open>config\<close> starts as nil and every visited entry overwrites
  it with its value.
\<close>

definition range_last :: "(string \<times> string) list \<Rightarrow> string" where
  "range_last visited = foldl (\<lambda>config (_, cfg). cfg) [] visited"

text \<open>
  \<open>getConfigMap\<close> (lines 77 to 107). The error of \<open>GetByKey\<close> and the error of the decoder
  are logged and nothing else; the type assertion of line 88 has no \<open>ok\<close> result, so it
  panics on an item of another dynamic type.
\<close>

definition getConfigMap :: "unmarshal \<Rightarrow> range_order \<Rightarrow> Client \<Rightarrow> panic + osmConfig" where
  "getConfigMap decode order c =
     (let configMapCacheKey = getConfigMapCacheKey c;
          (item, exists, err) = GetByKey (cache c) configMapCacheKey
      in if \<not> exists then Inr osmConfig_zero
         else (case item of
                 None \<Rightarrow> Inl TypeAssertionFailed
               | Some (OtherItem _) \<Rightarrow> Inl TypeAssertionFailed
               | Some (ConfigMapPtr configMap) \<Rightarrow>
                   if length (Data configMap) = 0 then Inr osmConfig_zero
                   else (let config = range_last (order (Data configMap));
                             (err', conf) = decode config osmConfig_zero
                         in Inr conf)))"

subsection \<open>The informer's store\<close>

text \<open>
  The informer writes the objects it lists and watches into the store under
  \<open>cache.MetaNamespaceKeyFunc\<close>: \<open>namespace/name\<close>, or the name alone for an object
  without a namespace. The client never writes to the store.
\<close>

definition MetaNamespaceKeyFunc :: "ConfigMap \<Rightarrow> string" where
  "MetaNamespaceKeyFunc obj =
     (if length (Namespace obj) > 0 then Namespace obj @ ''/'' @ Name obj else Name obj)"

definition store_Add :: "ConfigMap \<Rightarrow> Client \<Rightarrow> Client" where
  "store_Add obj c = c\<lparr>cache := (cache c)(MetaNamespaceKeyFunc obj \<mapsto> ConfigMapPtr obj)\<rparr>"

subsection \<open>A fragment of \<open>yaml.Unmarshal\<close>\<close>

text \<open>
  Where a concrete payload is decoded, the decoder is a fragment of gopkg.in/yaml.v2.
  \<open>yaml_fragment\<close> follows the library on the documents of the wire format, and answers
  \<open>None\<close> on every other document:
  \<^item> a document is a sequence of lines \<open>key: value\<close>, each ended by a line feed (the last
    one may lack it); a key is made of lower-case letters and underscores, a value of
    lower-case letters, digits and \<open>-\<close>; no key occurs twice;
  \<^item> a value resolves to a boolean (\<open>true\<close>, \<open>false\<close>), to an integer (decimal, at most 18
    digits, no leading zero) or to a string (lower-case letters only, none of the other
    words yaml.v2 resolves to a boolean or to null);
  \<^item> a key that names no field of \<open>osmConfig\<close> is skipped; a value of the field's type is
    assigned; a value of another type is not assigned, the decoder goes on with the next
    key and returns a \<open>*yaml.TypeError\<close> at the end, as the documentation of
    \<open>yaml.Unmarshal\<close> says ("decoding continues partially until the end of the YAML
    content").
\<close>

datatype scalar = YBool bool | YInt int | YStr string

definition is_lower :: "char \<Rightarrow> bool" where
  "is_lower ch = (let n = (of_char ch :: nat) in 97 \<le> n \<and> n \<le> 122)"

definition is_digit :: "char \<Rightarrow> bool" where
  "is_digit ch = (let n = (of_char ch :: nat) in 48 \<le> n \<and> n \<le> 57)"

definition is_key_char :: "char \<Rightarrow> bool" where
  "is_key_char ch = (is_lower ch \<or> ch = CHR ''_'')"

definition is_value_char :: "char \<Rightarrow> bool" where
  "is_value_char ch = (is_lower ch \<or> is_digit ch \<or> ch = CHR ''-'')"

text \<open>The lines of a text: \<open>cur\<close> is the current line, reversed.\<close>

fun split_lines :: "string \<Rightarrow> string \<Rightarrow> string list" where
  "split_lines cur [] = (if cur = [] then [] else [rev cur])"
| "split_lines cur (ch # cs) =
     (if ch = CHR 0x0A then rev cur # split_lines [] cs else split_lines (ch # cur) cs)"

definition parse_entry :: "string \<Rightarrow> (string \<times> string) option" where
  "parse_entry line =
     (let k = takeWhile is_key_char line; rest = dropWhile is_key_char line
      in if k \<noteq> [] \<and> take 2 rest = '': '' \<and> drop 2 rest \<noteq> [] \<and> list_all is_value_char (drop 2 rest)
         then Some (k, drop 2 rest) else None)"

definition decimal :: "string \<Rightarrow> int option" where
  "decimal ds =
     (if ds \<noteq> [] \<and> list_all is_digit ds \<and> length ds \<le> 18 \<and> (length ds = 1 \<or> hd ds \<noteq> CHR ''0'')
      then Some (foldl (\<lambda>a d. 10 * a + (int (of_char d) - 48)) 0 ds) else None)"

definition resolve :: "string \<Rightarrow> scalar option" where
  "resolve v =
     (if v = ''true'' then Some (YBool True)
      else if v = ''false'' then Some (YBool False)
      else if v \<in> set [''y'', ''yes'', ''on'', ''n'', ''no'', ''off'', ''null''] then None
      else if list_all is_lower v then Some (YStr v)
      else if take 1 v = ''-'' then map_option (\<lambda>n. YInt (- n)) (decimal (drop 1 v))
      else map_option YInt (decimal v))"

text \<open>One key of the mapping: the fields that could not be decoded, and the record.\<close>

definition decode_field :: "string list \<times> osmConfig \<Rightarrow> string \<times> scalar \<Rightarrow> string list \<times> osmConfig" where
  "decode_field st kv =
     (let (errs, conf) = st; (k, v) = kv
      in if k = ''config_version'' then
           (case v of YInt n \<Rightarrow> (errs, conf\<lparr>ConfigVersion := n\<rparr>) | _ \<Rightarrow> (errs @ [k], conf))
         else if k = ''permissive_traffic_policy_mode'' then
           (case v of YBool b \<Rightarrow> (errs, conf\<lparr>PermissiveTrafficPolicyMode := b\<rparr>) | _ \<Rightarrow> (errs @ [k], conf))
         else (errs, conf))"

definition yaml_fragment :: "string \<Rightarrow> osmConfig \<Rightarrow> (decode_error option \<times> osmConfig) option" where
  "yaml_fragment text out =
     (case those (map parse_entry (split_lines [] text)) of
        None \<Rightarrow> None
      | Some kvs \<Rightarrow>
          if \<not> distinct (map fst kvs) then None
          else (case those (map (\<lambda>(k, v). map_option (Pair k) (resolve v)) kvs) of
                  None \<Rightarrow> None
                | Some resolved \<Rightarrow>
                    (let (errs, conf) = foldl decode_field ([], out) resolved
                     in Some (if errs = [] then None else Some (TypeError errs), conf))))"

text \<open>
  \<open>yaml.Unmarshal\<close> on every text: the fragment where it answers, and elsewhere \<open>rest\<close>,
  the part of the library that is not modelled, a parameter. Nothing is said about what
  the library does outside the fragment.
\<close>

definition yaml_Unmarshal :: "unmarshal \<Rightarrow> unmarshal" where
  "yaml_Unmarshal rest text out =
     (case yaml_fragment text out of Some r \<Rightarrow> r | None \<Rightarrow> rest text out)"

subsection \<open>Reflection: finding a field by name\<close>



text \<open>
  The state of the search during one depth: the match (\<open>result\<close>, set when \<open>ok\<close> is), whether
  the name was found to be ambiguous, the structs queued for the next depth with the path
  to each (\<open>next\<close>), how often each was reached (\<open>nextCount\<close>), and the types searched so far.
\<close>

record field_search =
  result :: "nat list option"
  ambiguous :: bool
  queue :: "(go_type \<times> nat list) list"
  nextCount :: "(go_type \<times> nat) list"
  visited :: "go_type list"









subsection \<open>Reflection on values, and the filter \<open>shouldObserve\<close>\<close>













subsection \<open>The sync coordinator \<open>run\<close>\<close>

text \<open>
  \<open>cache.WaitForCacheSync(stop, c.informer.HasSynced)\<close> polls until the informer has
  synced (it returns true) or the stop channel is closed (it returns false). What it
  sees at one poll is a \<open>wait_event\<close>; a run of the wait is the list of the events it sees.
  On a list that holds neither outcome the wait has not returned: \<open>None\<close>.
\<close>

datatype wait_event = NotYet | HasSynced | StopClosed

fun wait_step :: "wait_event \<Rightarrow> bool option" where
  "wait_step NotYet = None"
| "wait_step HasSynced = Some True"
| "wait_step StopClosed = Some False"

fun WaitForCacheSync :: "wait_event list \<Rightarrow> bool option" where
  "WaitForCacheSync [] = None"
| "WaitForCacheSync (ev # evs) =
     (case wait_step ev of Some synced \<Rightarrow> Some synced | None \<Rightarrow> WaitForCacheSync evs)"

text \<open>Lines 63 to 70: what \<open>run\<close> does once the wait has returned \<open>synced\<close>.\<close>

definition run_after_wait :: "bool \<Rightarrow> Client \<Rightarrow> panic + Client" where
  "run_after_wait synced c =
     (if \<not> synced then Inr c
      else (case close_chan (cacheSynced c) of
              Inl p \<Rightarrow> Inl p
            | Inr ch \<Rightarrow> Inr (c\<lparr>cacheSynced := ch\<rparr>)))"

text \<open>\<open>run\<close> (lines 59 to 71): \<open>None\<close> while the wait has not returned.\<close>

definition run :: "wait_event list \<Rightarrow> Client \<Rightarrow> (panic + Client) option" where
  "run evs c = map_option (\<lambda>synced. run_after_wait synced c) (WaitForCacheSync evs)"

subsection \<open>The component over its lifetime\<close>

text \<open>
  \<open>NewConfigurator\<close> starts \<open>run\<close> once, in a goroutine of its own. From then on the
  steps of that goroutine interleave with everything else that touches the client:
  \<^item> \<open>Poll ev\<close>: the wait inside \<open>run\<close> sees \<open>ev\<close>; \<open>run\<close> goes on as lines 63 to 70 say and,
    once it has returned, takes no further step;
  \<^item> \<open>Receive\<close>: an observer receives from \<open>cacheSynced\<close> (it blocks while the channel is
    open and gets the zero value once it is closed; the channel is left as it was);
  \<^item> \<open>StopRequest\<close>: the owner of the stop channel asks the component to stop;
  \<^item> \<open>InformerAdd obj\<close>: the informer writes an object into its store;
  \<^item> \<open>GetConfig\<close>: a caller reads the configuration.
  \<open>closes\<close> counts the executions of \<open>close(c.cacheSynced)\<close> that did not panic.
\<close>

datatype action =
    Poll wait_event
  | Receive
  | StopRequest
  | InformerAdd ConfigMap
  | GetConfig

record system =
  client :: Client
  returned :: bool
  stop_requested :: bool
  closes :: nat

definition start :: "string \<Rightarrow> string \<Rightarrow> system" where
  "start ns name =
     \<lparr>client = NewConfigurator ns name, returned = False, stop_requested = False, closes = 0\<rparr>"

fun step :: "system \<Rightarrow> action \<Rightarrow> panic + system" where
  "step s (Poll ev) =
     (if returned s then Inr s
      else (case wait_step ev of
              None \<Rightarrow> Inr s
            | Some synced \<Rightarrow>
                (case run_after_wait synced (client s) of
                   Inl p \<Rightarrow> Inl p
                 | Inr c \<Rightarrow>
                     Inr (s\<lparr>client := c, returned := True,
                            closes := (if synced then Suc (closes s) else closes s)\<rparr>))))"
| "step s Receive = Inr s"
| "step s StopRequest = Inr (s\<lparr>stop_requested := True\<rparr>)"
| "step s (InformerAdd obj) = Inr (s\<lparr>client := store_Add obj (client s)\<rparr>)"
| "step s GetConfig = Inr s"

fun exec :: "system \<Rightarrow> action list \<Rightarrow> panic + system" where
  "exec s [] = Inr s"
| "exec s (a # as) = (case step s a of Inl p \<Rightarrow> Inl p | Inr s' \<Rightarrow> exec s' as)"

text \<open>
  What holds of the component at every moment of its life: the channel has been closed at
  most once, it is closed exactly when the close has been executed, and the close has not
  been executed while \<open>run\<close> has not returned.
\<close>

definition coordinator_inv :: "system \<Rightarrow> bool" where
  "coordinator_inv s =
     (closes s \<le> 1 \<and> closed (cacheSynced (client s)) = (closes s = 1) \<and>
      (if returned s then True else closes s = 0))"

subsection \<open>The announcement relay\<close>




subsection \<open>The payloads and clients of the scenarios\<close>

text \<open>The payload of the round trip: \<open>config_version: 2\<close>, \<open>permissive_traffic_policy_mode: true\<close>.\<close>

definition payload_2_true :: string where
  "payload_2_true =
     ''config_version: 2'' @ [CHR 0x0A] @ ''permissive_traffic_policy_mode: true'' @ [CHR 0x0A]"

text \<open>A payload whose first key decodes and whose second key holds no boolean.\<close>

definition payload_2_notabool :: string where
  "payload_2_notabool =
     ''config_version: 2'' @ [CHR 0x0A] @ ''permissive_traffic_policy_mode: notabool'' @ [CHR 0x0A]"

text \<open>A payload that switches permissive mode on and whose version is no integer.\<close>

definition payload_true_notanint :: string where
  "payload_true_notanint =
     ''permissive_traffic_policy_mode: true'' @ [CHR 0x0A] @ ''config_version: abc'' @ [CHR 0x0A]"

text \<open>
  The client watching \<open>osm-system/osm-config\<close>, after the informer has stored the
  ConfigMap of that name and namespace with the payload entries \<open>d\<close>.
\<close>

definition watching :: "(string \<times> string) list \<Rightarrow> Client" where
  "watching d =
     store_Add \<lparr>Namespace = ''osm-system'', Name = ''osm-config'', Data = d\<rparr>
       (NewConfigurator ''osm-system'' ''osm-config'')"

section \<open>Properties\<close>

subsection \<open>Facts about \<open>getConfigMap\<close> used below\<close>

lemma getConfigMap_absent:
  "cache c (getConfigMapCacheKey c) = None \<Longrightarrow> getConfigMap decode order c = Inr osmConfig_zero"
  by (simp add: getConfigMap_def GetByKey_def)

lemma getConfigMap_empty:
  "cache c (getConfigMapCacheKey c) = Some (ConfigMapPtr cm) \<Longrightarrow> Data cm = [] \<Longrightarrow>
   getConfigMap decode order c = Inr osmConfig_zero"
  by (simp add: getConfigMap_def GetByKey_def)

lemma getConfigMap_decoded:
  "cache c (getConfigMapCacheKey c) = Some (ConfigMapPtr cm) \<Longrightarrow> Data cm \<noteq> [] \<Longrightarrow>
   getConfigMap decode order c = Inr (snd (decode (range_last (order (Data cm))) osmConfig_zero))"
  by (simp add: getConfigMap_def GetByKey_def split: prod.splits)

lemma getConfigMap_other:
  "cache c (getConfigMapCacheKey c) = Some (OtherItem T) \<Longrightarrow>
   getConfigMap decode order c = Inl TypeAssertionFailed"
  by (simp add: getConfigMap_def GetByKey_def)

lemma watching_key: "getConfigMapCacheKey (watching d) = ''osm-system/osm-config''"
  by (simp add: watching_def getConfigMapCacheKey_def store_Add_def NewConfigurator_def)

lemma watching_cache:
  "cache (watching d) ''osm-system/osm-config'' =
     Some (ConfigMapPtr \<lparr>Namespace = ''osm-system'', Name = ''osm-config'', Data = d\<rparr>)"
  by (simp add: watching_def store_Add_def NewConfigurator_def MetaNamespaceKeyFunc_def)

lemma range_last_snd_last: "es \<noteq> [] \<Longrightarrow> range_last es = snd (last es)"
  unfolding range_last_def
  by (induction es rule: rev_induct) (auto split: prod.splits)

lemma yaml_Unmarshal_fragment:
  "yaml_fragment text out = Some r \<Longrightarrow> yaml_Unmarshal rest text out = r"
  by (simp add: yaml_Unmarshal_def)

lemma fragment_payload_2_true:
  "yaml_fragment payload_2_true osmConfig_zero =
     Some (None, \<lparr>ConfigVersion = 2, PermissiveTrafficPolicyMode = True\<rparr>)"
  by code_simp

lemma fragment_payload_2_notabool:
  "yaml_fragment payload_2_notabool osmConfig_zero =
     Some (Some (TypeError [''permissive_traffic_policy_mode'']),
           \<lparr>ConfigVersion = 2, PermissiveTrafficPolicyMode = False\<rparr>)"
  by code_simp

lemma fragment_payload_true_notanint:
  "yaml_fragment payload_true_notanint osmConfig_zero =
     Some (Some (TypeError [''config_version'']),
           \<lparr>ConfigVersion = 0, PermissiveTrafficPolicyMode = True\<rparr>)"
  by code_simp

lemma fragment_version_1:
  "yaml_fragment ''config_version: 1'' osmConfig_zero =
     Some (None, \<lparr>ConfigVersion = 1, PermissiveTrafficPolicyMode = False\<rparr>)"
  by code_simp

lemma fragment_version_2:
  "yaml_fragment ''config_version: 2'' osmConfig_zero =
     Some (None, \<lparr>ConfigVersion = 2, PermissiveTrafficPolicyMode = False\<rparr>)"
  by code_simp

lemmas decode_payload =
  yaml_Unmarshal_fragment [OF fragment_payload_2_true]
  yaml_Unmarshal_fragment [OF fragment_payload_2_notabool]
  yaml_Unmarshal_fragment [OF fragment_payload_true_notanint]
  yaml_Unmarshal_fragment [OF fragment_version_1]
  yaml_Unmarshal_fragment [OF fragment_version_2]

lemma visits_single: "visits_each_once order [e] \<Longrightarrow> order [e] = [e]"
  by (simp add: visits_each_once_def)

lemma visits_set: "visits_each_once order es \<Longrightarrow> set (order es) = set es"
  unfolding visits_each_once_def by (rule mset_eq_setD)

lemma visits_nonempty: "visits_each_once order es \<Longrightarrow> es \<noteq> [] \<Longrightarrow> order es \<noteq> []"
  by (auto simp: visits_each_once_def)

lemma takeWhile_slash:
  "CHR ''/'' \<notin> set a \<Longrightarrow> takeWhile (\<lambda>ch. ch \<noteq> CHR ''/'') (a @ ''/'' @ b) = a"
  by (induction a) auto

lemma key_differs:
  assumes "Namespace obj \<noteq> ns" and "CHR ''/'' \<notin> set ns" and "CHR ''/'' \<notin> set (Namespace obj)"
    and "CHR ''/'' \<notin> set (Name obj)"
  shows "MetaNamespaceKeyFunc obj \<noteq> ns @ ''/'' @ name"
proof (cases "Namespace obj = []")
  case True
  then have "MetaNamespaceKeyFunc obj = Name obj"
    by (simp add: MetaNamespaceKeyFunc_def)
  moreover have "CHR ''/'' \<in> set (ns @ ''/'' @ name)" by simp
  ultimately show ?thesis using assms(4) by metis
next
  case False
  then have k: "MetaNamespaceKeyFunc obj = Namespace obj @ ''/'' @ Name obj"
    by (simp add: MetaNamespaceKeyFunc_def)
  show ?thesis
  proof
    assume "MetaNamespaceKeyFunc obj = ns @ ''/'' @ name"
    then have "takeWhile (\<lambda>ch. ch \<noteq> CHR ''/'') (Namespace obj @ ''/'' @ Name obj) =
               takeWhile (\<lambda>ch. ch \<noteq> CHR ''/'') (ns @ ''/'' @ name)"
      using k by simp
    then have "Namespace obj = ns"
      using takeWhile_slash [OF assms(3), of "Name obj"] takeWhile_slash [OF assms(2), of name]
      by simp
    with assms(1) show False by simp
  qed
qed

subsection \<open>The config accessor\<close>

text \<open>
  C5. \<open>getConfigMap\<close> returns the zero-valued record, and does not panic, whenever the
  watched object is absent from the cache, whenever it is present with a payload map
  without entries, and in particular on the client as \<open>NewConfigurator\<close> made it, before
  the informer has stored anything. The zero-valued record is
  \<open>{ConfigVersion: 0, PermissiveTrafficPolicyMode: false}\<close>.
\<close>

theorem getConfigMap_zero_when_absent_or_empty:
  "(cache c (getConfigMapCacheKey c) = None \<longrightarrow> getConfigMap decode order c = Inr osmConfig_zero) \<and>
   (cache c (getConfigMapCacheKey c) = Some (ConfigMapPtr cm) \<and> length (Data cm) = 0 \<longrightarrow>
      getConfigMap decode order c = Inr osmConfig_zero) \<and>
   getConfigMap decode order (NewConfigurator ns name) = Inr osmConfig_zero \<and>
   osmConfig_zero = \<lparr>ConfigVersion = 0, PermissiveTrafficPolicyMode = False\<rparr>"
proof -
  have "cache (NewConfigurator ns name) (getConfigMapCacheKey (NewConfigurator ns name)) = None"
    by (simp add: NewConfigurator_def)
  then have "getConfigMap decode order (NewConfigurator ns name) = Inr osmConfig_zero"
    by (rule getConfigMap_absent)
  then show ?thesis
    by (simp add: getConfigMap_absent getConfigMap_empty osmConfig_zero_def)
qed

theorem getConfigMap_zero_when_absent_or_empty_witness:
  "\<forall>rest.
     cache (NewConfigurator ''osm-system'' ''osm-config'')
       (getConfigMapCacheKey (NewConfigurator ''osm-system'' ''osm-config'')) = None \<and>
     getConfigMap (yaml_Unmarshal rest) id (NewConfigurator ''osm-system'' ''osm-config'') =
       Inr \<lparr>ConfigVersion = 0, PermissiveTrafficPolicyMode = False\<rparr> \<and>
     cache (watching []) (getConfigMapCacheKey (watching [])) =
       Some (ConfigMapPtr \<lparr>Namespace = ''osm-system'', Name = ''osm-config'', Data = []\<rparr>) \<and>
     getConfigMap (yaml_Unmarshal rest) id (watching []) =
       Inr \<lparr>ConfigVersion = 0, PermissiveTrafficPolicyMode = False\<rparr>"
proof
  fix rest
  show "cache (NewConfigurator ''osm-system'' ''osm-config'')
          (getConfigMapCacheKey (NewConfigurator ''osm-system'' ''osm-config'')) = None \<and>
        getConfigMap (yaml_Unmarshal rest) id (NewConfigurator ''osm-system'' ''osm-config'') =
          Inr \<lparr>ConfigVersion = 0, PermissiveTrafficPolicyMode = False\<rparr> \<and>
        cache (watching []) (getConfigMapCacheKey (watching [])) =
          Some (ConfigMapPtr \<lparr>Namespace = ''osm-system'', Name = ''osm-config'', Data = []\<rparr>) \<and>
        getConfigMap (yaml_Unmarshal rest) id (watching []) =
          Inr \<lparr>ConfigVersion = 0, PermissiveTrafficPolicyMode = False\<rparr>"
    using getConfigMap_zero_when_absent_or_empty
            [where c = "NewConfigurator ''osm-system'' ''osm-config''"
               and decode = "yaml_Unmarshal rest" and order = id]
          getConfigMap_zero_when_absent_or_empty
            [where c = "watching []" and decode = "yaml_Unmarshal rest" and order = id
               and cm = "\<lparr>Namespace = ''osm-system'', Name = ''osm-config'', Data = []\<rparr>"]
    by (simp add: watching_key watching_cache NewConfigurator_def)
qed

text \<open>
  C2. The round trip. When the watched object is in the cache under the watched key and
  its only payload entry is the text \<open>config_version: 2\<close>, \<open>permissive_traffic_policy_mode: true\<close>
  (each line ended by a line feed), \<open>getConfigMap\<close> with the decoder returns
  \<open>{ConfigVersion: 2, PermissiveTrafficPolicyMode: true}\<close>, whatever the key of the entry
  and whatever the decoder does on texts outside the fragment.
\<close>

theorem getConfigMap_round_trip:
  assumes "cache c (getConfigMapCacheKey c) = Some (ConfigMapPtr cm)"
    and "Data cm = [(k, payload_2_true)]"
    and "visits_each_once order (Data cm)"
  shows "getConfigMap (yaml_Unmarshal rest) order c =
           Inr \<lparr>ConfigVersion = 2, PermissiveTrafficPolicyMode = True\<rparr>"
proof -
  have "order (Data cm) = [(k, payload_2_true)]"
    using assms(2,3) visits_single by simp
  then have "range_last (order (Data cm)) = payload_2_true"
    by (simp add: range_last_def)
  moreover have "Data cm \<noteq> []"
    using assms(2) by simp
  ultimately show ?thesis
    using getConfigMap_decoded [OF assms(1), of "yaml_Unmarshal rest" order]
    by (simp add: decode_payload)
qed

theorem getConfigMap_round_trip_witness:
  "\<forall>rest.
     cache (watching [(''osm-config.yaml'', payload_2_true)])
       (getConfigMapCacheKey (watching [(''osm-config.yaml'', payload_2_true)])) =
       Some (ConfigMapPtr \<lparr>Namespace = ''osm-system'', Name = ''osm-config'',
                           Data = [(''osm-config.yaml'', payload_2_true)]\<rparr>) \<and>
     visits_each_once id [(''osm-config.yaml'', payload_2_true)] \<and>
     getConfigMap (yaml_Unmarshal rest) id (watching [(''osm-config.yaml'', payload_2_true)]) =
       Inr \<lparr>ConfigVersion = 2, PermissiveTrafficPolicyMode = True\<rparr>"
proof
  fix rest
  show "cache (watching [(''osm-config.yaml'', payload_2_true)])
          (getConfigMapCacheKey (watching [(''osm-config.yaml'', payload_2_true)])) =
          Some (ConfigMapPtr \<lparr>Namespace = ''osm-system'', Name = ''osm-config'',
                              Data = [(''osm-config.yaml'', payload_2_true)]\<rparr>) \<and>
        visits_each_once id [(''osm-config.yaml'', payload_2_true)] \<and>
        getConfigMap (yaml_Unmarshal rest) id (watching [(''osm-config.yaml'', payload_2_true)]) =
          Inr \<lparr>ConfigVersion = 2, PermissiveTrafficPolicyMode = True\<rparr>"
    using getConfigMap_round_trip
            [where c = "watching [(''osm-config.yaml'', payload_2_true)]" and order = id
               and k = "''osm-config.yaml''" and rest = rest
               and cm = "\<lparr>Namespace = ''osm-system'', Name = ''osm-config'',
                           Data = [(''osm-config.yaml'', payload_2_true)]\<rparr>"]
    by (simp add: watching_key watching_cache visits_each_once_def)
qed

text \<open>
  C1. The claim asks for the zero-valued record on every payload whose decode fails. The
  code does not deliver it: lines 102 to 106 log the error of the decoder and fall through
  to \<open>return &conf\<close>, where the two failure paths before them (lines 85 and 92) return
  \<open>&osmConfig{}\<close>. The decoder keeps the fields it decoded before a type error, so
  \<^item> on \<open>config_version: 2\<close>, \<open>permissive_traffic_policy_mode: notabool\<close> the decode fails
    and \<open>getConfigMap\<close> returns \<open>{2, false}\<close>;
  \<^item> on \<open>permissive_traffic_policy_mode: true\<close>, \<open>config_version: abc\<close> the decode fails
    and \<open>getConfigMap\<close> returns \<open>{0, true}\<close>: a payload that failed to decode switches
    permissive mode on.
  Neither is the zero-valued record.
\<close>

theorem getConfigMap_decode_failure_keeps_fields:
  "fst (yaml_Unmarshal rest payload_2_notabool osmConfig_zero) =
     Some (TypeError [''permissive_traffic_policy_mode'']) \<and>
   getConfigMap (yaml_Unmarshal rest) id (watching [(''osm-config.yaml'', payload_2_notabool)]) =
     Inr \<lparr>ConfigVersion = 2, PermissiveTrafficPolicyMode = False\<rparr> \<and>
   fst (yaml_Unmarshal rest payload_true_notanint osmConfig_zero) =
     Some (TypeError [''config_version'']) \<and>
   getConfigMap (yaml_Unmarshal rest) id (watching [(''osm-config.yaml'', payload_true_notanint)]) =
     Inr \<lparr>ConfigVersion = 0, PermissiveTrafficPolicyMode = True\<rparr> \<and>
   \<lparr>ConfigVersion = 2, PermissiveTrafficPolicyMode = False\<rparr> \<noteq> osmConfig_zero \<and>
   \<lparr>ConfigVersion = 0, PermissiveTrafficPolicyMode = True\<rparr> \<noteq> osmConfig_zero"
proof -
  have decoded: "getConfigMap (yaml_Unmarshal rest) id (watching [(''osm-config.yaml'', payload)]) =
          Inr (snd (yaml_Unmarshal rest payload osmConfig_zero))" for payload
    using getConfigMap_decoded
            [where c = "watching [(''osm-config.yaml'', payload)]" and order = id
               and decode = "yaml_Unmarshal rest"
               and cm = "\<lparr>Namespace = ''osm-system'', Name = ''osm-config'',
                           Data = [(''osm-config.yaml'', payload)]\<rparr>"]
    by (simp add: watching_key watching_cache range_last_def)
  have "\<lparr>ConfigVersion = 2, PermissiveTrafficPolicyMode = False\<rparr> \<noteq> osmConfig_zero"
    and "\<lparr>ConfigVersion = 0, PermissiveTrafficPolicyMode = True\<rparr> \<noteq> osmConfig_zero"
    by (simp_all add: osmConfig_zero_def)
  then show ?thesis
    by (simp add: decoded decode_payload)
qed

text \<open>
  C6. The key of the lookup is made of the watched namespace and the watched name, and of
  nothing the store holds. For the client watching \<open>osm-system/osm-config\<close>, an object of
  the same name in namespace \<open>default\<close> is stored under another key, so \<open>getConfigMap\<close>
  returns the zero-valued record whatever its payload; the same holds for every object of
  another namespace, names and namespaces being free of \<open>/\<close> as Kubernetes has them.
\<close>

theorem lookup_key_embeds_watched_namespace:
  "getConfigMapCacheKey (store_Add obj c) = osmNamespace c @ ''/'' @ osmConfigMapName c \<and>
   getConfigMap decode order
     (store_Add \<lparr>Namespace = ''default'', Name = ''osm-config'', Data = d\<rparr>
        (NewConfigurator ''osm-system'' ''osm-config'')) = Inr osmConfig_zero \<and>
   (Namespace obj \<noteq> ns \<and> CHR ''/'' \<notin> set ns \<and> CHR ''/'' \<notin> set (Namespace obj) \<and>
    CHR ''/'' \<notin> set (Name obj) \<longrightarrow>
      getConfigMap decode order (store_Add obj (NewConfigurator ns name)) = Inr osmConfig_zero)"
proof (intro conjI impI)
  show "getConfigMapCacheKey (store_Add obj c) = osmNamespace c @ ''/'' @ osmConfigMapName c"
    by (simp add: getConfigMapCacheKey_def store_Add_def)
next
  show "getConfigMap decode order
          (store_Add \<lparr>Namespace = ''default'', Name = ''osm-config'', Data = d\<rparr>
             (NewConfigurator ''osm-system'' ''osm-config'')) = Inr osmConfig_zero"
    by (rule getConfigMap_absent)
       (simp add: getConfigMapCacheKey_def store_Add_def NewConfigurator_def MetaNamespaceKeyFunc_def)
next
  assume "Namespace obj \<noteq> ns \<and> CHR ''/'' \<notin> set ns \<and> CHR ''/'' \<notin> set (Namespace obj) \<and>
          CHR ''/'' \<notin> set (Name obj)"
  then have "MetaNamespaceKeyFunc obj \<noteq> ns @ ''/'' @ name"
    using key_differs [of obj ns name] by blast
  then show "getConfigMap decode order (store_Add obj (NewConfigurator ns name)) = Inr osmConfig_zero"
    by (intro getConfigMap_absent)
       (simp add: getConfigMapCacheKey_def store_Add_def NewConfigurator_def)
qed

theorem lookup_key_embeds_watched_namespace_witness:
  "\<forall>rest.
     getConfigMapCacheKey
       (store_Add \<lparr>Namespace = ''default'', Name = ''osm-config'',
                   Data = [(''osm-config.yaml'', payload_2_true)]\<rparr>
          (NewConfigurator ''osm-system'' ''osm-config'')) = ''osm-system/osm-config'' \<and>
     getConfigMap (yaml_Unmarshal rest) id
       (store_Add \<lparr>Namespace = ''default'', Name = ''osm-config'',
                   Data = [(''osm-config.yaml'', payload_2_true)]\<rparr>
          (NewConfigurator ''osm-system'' ''osm-config'')) =
       Inr \<lparr>ConfigVersion = 0, PermissiveTrafficPolicyMode = False\<rparr> \<and>
     getConfigMap (yaml_Unmarshal rest) id
       (store_Add \<lparr>Namespace = ''kube-system'', Name = ''osm-config'',
                   Data = [(''osm-config.yaml'', payload_2_true)]\<rparr>
          (NewConfigurator ''osm-system'' ''osm-config'')) =
       Inr \<lparr>ConfigVersion = 0, PermissiveTrafficPolicyMode = False\<rparr>"
proof
  fix rest
  show "getConfigMapCacheKey
          (store_Add \<lparr>Namespace = ''default'', Name = ''osm-config'',
                      Data = [(''osm-config.yaml'', payload_2_true)]\<rparr>
             (NewConfigurator ''osm-system'' ''osm-config'')) = ''osm-system/osm-config'' \<and>
        getConfigMap (yaml_Unmarshal rest) id
          (store_Add \<lparr>Namespace = ''default'', Name = ''osm-config'',
                      Data = [(''osm-config.yaml'', payload_2_true)]\<rparr>
             (NewConfigurator ''osm-system'' ''osm-config'')) =
          Inr \<lparr>ConfigVersion = 0, PermissiveTrafficPolicyMode = False\<rparr> \<and>
        getConfigMap (yaml_Unmarshal rest) id
          (store_Add \<lparr>Namespace = ''kube-system'', Name = ''osm-config'',
                      Data = [(''osm-config.yaml'', payload_2_true)]\<rparr>
             (NewConfigurator ''osm-system'' ''osm-config'')) =
          Inr \<lparr>ConfigVersion = 0, PermissiveTrafficPolicyMode = False\<rparr>"
    using lookup_key_embeds_watched_namespace
            [where c = "NewConfigurator ''osm-system'' ''osm-config''"
               and decode = "yaml_Unmarshal rest"
               and order = id and d = "[(''osm-config.yaml'', payload_2_true)]"
               and ns = "''osm-system''" and name = "''osm-config''"
               and obj = "\<lparr>Namespace = ''kube-system'', Name = ''osm-config'',
                            Data = [(''osm-config.yaml'', payload_2_true)]\<rparr>"]
          lookup_key_embeds_watched_namespace
            [where c = "NewConfigurator ''osm-system'' ''osm-config''"
               and decode = "yaml_Unmarshal rest"
               and order = id and d = "[(''osm-config.yaml'', payload_2_true)]"
               and ns = "''osm-system''" and name = "''osm-config''"
               and obj = "\<lparr>Namespace = ''default'', Name = ''osm-config'',
                            Data = [(''osm-config.yaml'', payload_2_true)]\<rparr>"]
    by (simp add: osmConfig_zero_def NewConfigurator_def)
qed

text \<open>
  C7, as the claim states it, fails. The object state is the same and the payload map has
  two entries; an execution of the loop that visits \<open>a\<close> then \<open>b\<close> returns version 2, one
  that visits \<open>b\<close> then \<open>a\<close> returns version 1. Both orders visit every entry once.
\<close>

theorem getConfigMap_selection_counterexample:
  "\<forall>rest.
     visits_each_once id [(''a'', ''config_version: 1''), (''b'', ''config_version: 2'')] \<and>
     visits_each_once rev [(''a'', ''config_version: 1''), (''b'', ''config_version: 2'')] \<and>
     getConfigMap (yaml_Unmarshal rest) id
       (watching [(''a'', ''config_version: 1''), (''b'', ''config_version: 2'')]) =
       Inr \<lparr>ConfigVersion = 2, PermissiveTrafficPolicyMode = False\<rparr> \<and>
     getConfigMap (yaml_Unmarshal rest) rev
       (watching [(''a'', ''config_version: 1''), (''b'', ''config_version: 2'')]) =
       Inr \<lparr>ConfigVersion = 1, PermissiveTrafficPolicyMode = False\<rparr>"
proof
  fix rest
  let ?d = "[(''a'', ''config_version: 1''), (''b'', ''config_version: 2'')]"
  have c: "cache (watching ?d) (getConfigMapCacheKey (watching ?d)) =
             Some (ConfigMapPtr \<lparr>Namespace = ''osm-system'', Name = ''osm-config'', Data = ?d\<rparr>)"
    by (simp add: watching_key watching_cache)
  have "getConfigMap (yaml_Unmarshal rest) id (watching ?d) =
          Inr \<lparr>ConfigVersion = 2, PermissiveTrafficPolicyMode = False\<rparr>"
    using getConfigMap_decoded [OF c, of "yaml_Unmarshal rest" id]
    by (simp add: range_last_def decode_payload)
  moreover have "getConfigMap (yaml_Unmarshal rest) rev (watching ?d) =
          Inr \<lparr>ConfigVersion = 1, PermissiveTrafficPolicyMode = False\<rparr>"
    using getConfigMap_decoded [OF c, of "yaml_Unmarshal rest" rev]
    by (simp add: range_last_def decode_payload)
  ultimately show "visits_each_once id ?d \<and> visits_each_once rev ?d \<and>
      getConfigMap (yaml_Unmarshal rest) id (watching ?d) =
        Inr \<lparr>ConfigVersion = 2, PermissiveTrafficPolicyMode = False\<rparr> \<and>
      getConfigMap (yaml_Unmarshal rest) rev (watching ?d) =
        Inr \<lparr>ConfigVersion = 1, PermissiveTrafficPolicyMode = False\<rparr>"
    by (simp add: visits_each_once_def)
qed

text \<open>
  C7, amended. \<open>getConfigMap\<close> decodes the entry its range loop visits last. Two
  invocations over the same object state return the same record when all the entries of
  the payload map hold the same text (in particular when there is one entry); with
  entries that differ the record depends on the order of the loop.
\<close>

theorem getConfigMap_selection:
  assumes "cache c (getConfigMapCacheKey c) = Some (ConfigMapPtr cm)"
    and "visits_each_once order (Data cm)"
    and "visits_each_once order' (Data cm)"
  shows "(length (Data cm) \<noteq> 0 \<longrightarrow>
            getConfigMap decode order c =
              Inr (snd (decode (snd (last (order (Data cm)))) osmConfig_zero))) \<and>
         ((\<forall>e \<in> set (Data cm). snd e = payload) \<longrightarrow>
            getConfigMap decode order c = getConfigMap decode order' c)"
proof (intro conjI impI)
  assume "length (Data cm) \<noteq> 0"
  then have ne: "Data cm \<noteq> []" by simp
  then have "order (Data cm) \<noteq> []"
    using assms(2) by (simp add: visits_nonempty)
  then show "getConfigMap decode order c =
               Inr (snd (decode (snd (last (order (Data cm)))) osmConfig_zero))"
    using getConfigMap_decoded [OF assms(1) ne, of decode order]
    by (simp add: range_last_snd_last)
next
  assume same: "\<forall>e \<in> set (Data cm). snd e = payload"
  show "getConfigMap decode order c = getConfigMap decode order' c"
  proof (cases "Data cm = []")
    case True
    then show ?thesis
      using assms(1) by (simp add: getConfigMap_empty)
  next
    case False
    have last_payload: "range_last (f (Data cm)) = payload" if "visits_each_once f (Data cm)" for f
    proof -
      have ne: "f (Data cm) \<noteq> []"
        using that False by (simp add: visits_nonempty)
      then have "last (f (Data cm)) \<in> set (Data cm)"
        using visits_set [OF that] last_in_set by blast
      with same ne show ?thesis
        by (simp add: range_last_snd_last)
    qed
    show ?thesis
      using getConfigMap_decoded [OF assms(1) False]
      by (simp add: last_payload assms(2,3))
  qed
qed

theorem getConfigMap_selection_witness:
  "\<forall>rest.
     cache (watching [(''a'', ''config_version: 1''), (''b'', ''config_version: 1'')])
       (getConfigMapCacheKey (watching [(''a'', ''config_version: 1''), (''b'', ''config_version: 1'')])) =
       Some (ConfigMapPtr \<lparr>Namespace = ''osm-system'', Name = ''osm-config'',
               Data = [(''a'', ''config_version: 1''), (''b'', ''config_version: 1'')]\<rparr>) \<and>
     visits_each_once id [(''a'', ''config_version: 1''), (''b'', ''config_version: 1'')] \<and>
     visits_each_once rev [(''a'', ''config_version: 1''), (''b'', ''config_version: 1'')] \<and>
     getConfigMap (yaml_Unmarshal rest) id
         (watching [(''a'', ''config_version: 1''), (''b'', ''config_version: 1'')]) =
       Inr \<lparr>ConfigVersion = 1, PermissiveTrafficPolicyMode = False\<rparr> \<and>
     getConfigMap (yaml_Unmarshal rest) id
         (watching [(''a'', ''config_version: 1''), (''b'', ''config_version: 1'')]) =
       getConfigMap (yaml_Unmarshal rest) rev
         (watching [(''a'', ''config_version: 1''), (''b'', ''config_version: 1'')])"
proof
  fix rest
  let ?d = "[(''a'', ''config_version: 1''), (''b'', ''config_version: 1'')]"
  show "cache (watching ?d) (getConfigMapCacheKey (watching ?d)) =
          Some (ConfigMapPtr \<lparr>Namespace = ''osm-system'', Name = ''osm-config'', Data = ?d\<rparr>) \<and>
        visits_each_once id ?d \<and> visits_each_once rev ?d \<and>
        getConfigMap (yaml_Unmarshal rest) id (watching ?d) =
          Inr \<lparr>ConfigVersion = 1, PermissiveTrafficPolicyMode = False\<rparr> \<and>
        getConfigMap (yaml_Unmarshal rest) id (watching ?d) =
          getConfigMap (yaml_Unmarshal rest) rev (watching ?d)"
    using getConfigMap_selection
            [where c = "watching ?d" and order = id and order' = rev
               and decode = "yaml_Unmarshal rest" and payload = "''config_version: 1''"
               and cm = "\<lparr>Namespace = ''osm-system'', Name = ''osm-config'', Data = ?d\<rparr>"]
    by (auto simp add: watching_key watching_cache visits_each_once_def decode_payload)
qed

text \<open>
  C10. The type assertion of line 88 is unchecked. When every item of the cache is a
  \<open>*v1.ConfigMap\<close>, \<open>getConfigMap\<close> returns a record and does not panic; when the item
  under the watched key has another dynamic type, it panics.
\<close>

theorem getConfigMap_type_assertion:
  "(ran (cache c) \<subseteq> range ConfigMapPtr \<longrightarrow> (\<exists>conf. getConfigMap decode order c = Inr conf)) \<and>
   getConfigMap decode order (c\<lparr>cache := (cache c)(getConfigMapCacheKey c \<mapsto> OtherItem T)\<rparr>) =
     Inl TypeAssertionFailed"
proof (intro conjI impI)
  assume all: "ran (cache c) \<subseteq> range ConfigMapPtr"
  show "\<exists>conf. getConfigMap decode order c = Inr conf"
  proof (cases "cache c (getConfigMapCacheKey c)")
    case None
    then show ?thesis by (simp add: getConfigMap_absent)
  next
    case (Some it)
    then have "it \<in> ran (cache c)" by (auto simp: ran_def)
    with all obtain cm where it: "it = ConfigMapPtr cm" by blast
    show ?thesis
    proof (cases "Data cm = []")
      case True
      with Some it show ?thesis by (simp add: getConfigMap_empty)
    next
      case False
      with Some it show ?thesis by (simp add: getConfigMap_decoded)
    qed
  qed
next
  show "getConfigMap decode order (c\<lparr>cache := (cache c)(getConfigMapCacheKey c \<mapsto> OtherItem T)\<rparr>) =
          Inl TypeAssertionFailed"
    by (rule getConfigMap_other) (simp add: getConfigMapCacheKey_def)
qed

theorem getConfigMap_type_assertion_witness:
  "\<forall>rest.
     ran (cache (watching [(''osm-config.yaml'', payload_2_true)])) \<subseteq> range ConfigMapPtr \<and>
     (\<exists>conf. getConfigMap (yaml_Unmarshal rest) id
               (watching [(''osm-config.yaml'', payload_2_true)]) = Inr conf) \<and>
     getConfigMap (yaml_Unmarshal rest) id
       ((watching [])\<lparr>cache := (cache (watching []))(''osm-system/osm-config'' \<mapsto> OtherItem ''*v1.Secret'')\<rparr>) =
       Inl TypeAssertionFailed"
proof
  fix rest
  show "ran (cache (watching [(''osm-config.yaml'', payload_2_true)])) \<subseteq> range ConfigMapPtr \<and>
        (\<exists>conf. getConfigMap (yaml_Unmarshal rest) id
                  (watching [(''osm-config.yaml'', payload_2_true)]) = Inr conf) \<and>
        getConfigMap (yaml_Unmarshal rest) id
          ((watching [])\<lparr>cache := (cache (watching []))(''osm-system/osm-config'' \<mapsto> OtherItem ''*v1.Secret'')\<rparr>) =
          Inl TypeAssertionFailed"
    using getConfigMap_type_assertion
            [where c = "watching [(''osm-config.yaml'', payload_2_true)]"
               and decode = "yaml_Unmarshal rest" and order = id]
          getConfigMap_type_assertion
            [where c = "watching []" and decode = "yaml_Unmarshal rest" and order = id
               and T = "''*v1.Secret''"]
    by (simp add: watching_key) (simp add: watching_def store_Add_def NewConfigurator_def)
qed

subsection \<open>The namespace filter\<close>













subsection \<open>The sync coordinator\<close>

lemma wait_stop_first:
  "HasSynced \<notin> set pre \<Longrightarrow> WaitForCacheSync (pre @ StopClosed # post) = Some False"
proof (induction pre)
  case Nil
  show ?case by simp
next
  case (Cons ev pre)
  then show ?case by (cases ev) simp_all
qed

lemma wait_true_synced: "WaitForCacheSync evs = Some True \<Longrightarrow> HasSynced \<in> set evs"
proof (induction evs)
  case Nil
  then show ?case by simp
next
  case (Cons ev evs)
  then show ?case by (cases ev) simp_all
qed

lemma wait_until_outcome:
  "WaitForCacheSync evs = None \<longleftrightarrow> set evs \<subseteq> {NotYet}"
proof (induction evs)
  case Nil
  show ?case by simp
next
  case (Cons ev evs)
  then show ?case by (cases ev) simp_all
qed

lemma start_inv: "coordinator_inv (start ns name)"
  by (simp add: coordinator_inv_def start_def NewConfigurator_def make_chan_def)

lemma step_inv:
  assumes "coordinator_inv s"
  shows "\<exists>s'. step s a = Inr s' \<and> coordinator_inv s' \<and> closes s \<le> closes s'"
proof (cases a)
  case (Poll ev)
  show ?thesis
  proof (cases "returned s")
    case True
    with Poll assms show ?thesis by simp
  next
    case False
    with assms have open_chan: "\<not> closed (cacheSynced (client s))" and zero: "closes s = 0"
      by (simp_all add: coordinator_inv_def)
    show ?thesis
    proof (cases ev)
      case NotYet
      with Poll False assms show ?thesis by simp
    next
      case HasSynced
      with Poll False open_chan zero show ?thesis
        by (simp add: run_after_wait_def close_chan_def coordinator_inv_def)
    next
      case StopClosed
      with Poll False open_chan zero show ?thesis
        by (simp add: run_after_wait_def coordinator_inv_def)
    qed
  qed
next
  case Receive
  with assms show ?thesis by simp
next
  case StopRequest
  with assms show ?thesis by (simp add: coordinator_inv_def)
next
  case (InformerAdd obj)
  with assms show ?thesis by (simp add: coordinator_inv_def store_Add_def)
next
  case GetConfig
  with assms show ?thesis by simp
qed

lemma exec_inv:
  "coordinator_inv s \<Longrightarrow> \<exists>s'. exec s as = Inr s' \<and> coordinator_inv s' \<and> closes s \<le> closes s'"
proof (induction as arbitrary: s)
  case Nil
  then show ?case by simp
next
  case (Cons a as)
  from step_inv [OF Cons.prems, of a] obtain s1 where
    s1: "step s a = Inr s1" "coordinator_inv s1" "closes s \<le> closes s1" by blast
  from Cons.IH [OF s1(2)] obtain s2 where
    s2: "exec s1 as = Inr s2" "coordinator_inv s2" "closes s1 \<le> closes s2" by blast
  from s1 s2 show ?case by simp
qed

lemma exec_append:
  "exec s (as @ bs) = (case exec s as of Inl p \<Rightarrow> Inl p | Inr s' \<Rightarrow> exec s' bs)"
  by (induction as arbitrary: s) (auto split: sum.splits)

text \<open>
  The interleaved execution agrees with \<open>run\<close>: when only the polls of the wait are
  looked at, the client (or the panic) the execution ends with is the one \<open>run\<close> returns.
\<close>

lemma exec_polls_returned: "returned s \<Longrightarrow> exec s (map Poll evs) = Inr s"
  by (induction evs) simp_all

lemma exec_polls_wait:
  "\<not> returned s \<Longrightarrow> WaitForCacheSync evs = Some synced \<Longrightarrow>
   map_sum id client (exec s (map Poll evs)) = run_after_wait synced (client s)"
proof (induction evs)
  case Nil
  then show ?case by simp
next
  case (Cons ev evs)
  show ?case
  proof (cases "wait_step ev")
    case None
    with Cons show ?thesis by simp
  next
    case (Some b)
    with Cons.prems have b: "b = synced" by simp
    show ?thesis
    proof (cases "run_after_wait synced (client s)")
      case (Inl p)
      with Some b Cons.prems show ?thesis by simp
    next
      case (Inr c)
      with Some b Cons.prems show ?thesis by (simp add: exec_polls_returned)
    qed
  qed
qed

lemma exec_polls_is_run:
  assumes "run evs (NewConfigurator ns name) = Some r"
  shows "map_sum id client (exec (start ns name) (map Poll evs)) = r"
proof -
  from assms obtain synced where w: "WaitForCacheSync evs = Some synced"
    and r: "r = run_after_wait synced (NewConfigurator ns name)"
    by (auto simp: run_def)
  have "\<not> returned (start ns name)" and "client (start ns name) = NewConfigurator ns name"
    by (simp_all add: start_def)
  with exec_polls_wait [OF _ w, of "start ns name"] r show ?thesis by simp
qed

text \<open>
  C8. If the wait of \<open>run\<close> sees the stop channel closed and has not seen the store synced
  before, \<open>run\<close> returns and leaves the client, and so the readiness channel, as it was:
  not closed, on the client \<open>NewConfigurator\<close> made. And whenever \<open>run\<close> returns with the
  readiness channel closed that was open before, the wait has seen the store synced.
\<close>

theorem run_stop_before_sync:
  "(HasSynced \<notin> set pre \<longrightarrow> run (pre @ StopClosed # post) c = Some (Inr c)) \<and>
   (run evs c = Some (Inr c') \<and> closed (cacheSynced c') \<and> \<not> closed (cacheSynced c) \<longrightarrow>
      HasSynced \<in> set evs) \<and>
   closed (cacheSynced (NewConfigurator ns name)) = False"
proof (intro conjI impI)
  assume "HasSynced \<notin> set pre"
  then show "run (pre @ StopClosed # post) c = Some (Inr c)"
    by (simp add: run_def wait_stop_first run_after_wait_def)
next
  assume a: "run evs c = Some (Inr c') \<and> closed (cacheSynced c') \<and> \<not> closed (cacheSynced c)"
  then obtain synced where w: "WaitForCacheSync evs = Some synced"
    and r: "run_after_wait synced c = Inr c'"
    by (auto simp: run_def)
  have "synced"
  proof (rule ccontr)
    assume "\<not> synced"
    with r have "c' = c" by (simp add: run_after_wait_def)
    with a show False by simp
  qed
  with w show "HasSynced \<in> set evs"
    by (simp add: wait_true_synced)
next
  show "closed (cacheSynced (NewConfigurator ns name)) = False"
    by (simp add: NewConfigurator_def make_chan_def)
qed

theorem run_stop_before_sync_witness:
  "HasSynced \<notin> set [NotYet, NotYet] \<and>
   run ([NotYet, NotYet] @ StopClosed # [HasSynced]) (NewConfigurator ''osm-system'' ''osm-config'') =
     Some (Inr (NewConfigurator ''osm-system'' ''osm-config'')) \<and>
   \<not> closed (cacheSynced (NewConfigurator ''osm-system'' ''osm-config'')) \<and>
   run [NotYet, HasSynced] (NewConfigurator ''osm-system'' ''osm-config'') =
     Some (Inr ((NewConfigurator ''osm-system'' ''osm-config'')
                  \<lparr>cacheSynced := (make_chan 0)\<lparr>closed := True\<rparr>\<rparr>)) \<and>
   HasSynced \<in> set [NotYet, HasSynced]"
  using run_stop_before_sync
          [where pre = "[NotYet, NotYet]" and post = "[HasSynced]"
             and c = "NewConfigurator ''osm-system'' ''osm-config''"
             and evs = "[NotYet, HasSynced]" and ns = "''osm-system''" and name = "''osm-config''"
             and c' = "(NewConfigurator ''osm-system'' ''osm-config'')
                         \<lparr>cacheSynced := (make_chan 0)\<lparr>closed := True\<rparr>\<rparr>"]
  by (simp add: run_def run_after_wait_def close_chan_def NewConfigurator_def make_chan_def)

text \<open>
  C4. Over every execution of the component, that is every interleaving of the polls of
  \<open>run\<close> with any number of observers receiving from the readiness channel, stop requests,
  writes of the informer and reads of the configuration: no step panics (a second
  \<open>close\<close> would), the close is executed at most once, the channel is closed exactly when
  it has been executed, and a channel that is closed after a prefix of the execution is
  closed after the whole of it.
\<close>

theorem cacheSynced_closed_at_most_once:
  "\<exists>s s'. exec (start ns name) as = Inr s \<and> exec (start ns name) (as @ bs) = Inr s' \<and>
          closes s \<le> closes s' \<and> closes s' \<le> 1 \<and>
          closed (cacheSynced (client s)) = (closes s = 1) \<and>
          closed (cacheSynced (client s')) = (closes s' = 1) \<and>
          (closed (cacheSynced (client s)) \<longrightarrow> closed (cacheSynced (client s')))"
proof -
  from exec_inv [OF start_inv, of ns name as] obtain s where
    s: "exec (start ns name) as = Inr s" "coordinator_inv s" by blast
  from exec_inv [OF s(2), of bs] obtain s' where
    s': "exec s bs = Inr s'" "coordinator_inv s'" "closes s \<le> closes s'" by blast
  have "exec (start ns name) (as @ bs) = Inr s'"
    using s(1) s'(1) by (simp add: exec_append)
  moreover have "closed (cacheSynced (client s)) \<longrightarrow> closed (cacheSynced (client s'))"
    using s(2) s'(2,3) by (auto simp: coordinator_inv_def)
  ultimately show ?thesis
    using s s' by (auto simp: coordinator_inv_def)
qed

theorem cacheSynced_closed_at_most_once_witness:
  "\<exists>s s'. exec (start ''osm-system'' ''osm-config'')
             [Receive, StopRequest, Poll NotYet, Poll HasSynced] = Inr s \<and>
          exec (start ''osm-system'' ''osm-config'')
             ([Receive, StopRequest, Poll NotYet, Poll HasSynced] @
              [StopRequest, Poll HasSynced, Receive, Poll StopClosed, GetConfig]) = Inr s' \<and>
          closed (cacheSynced (client s)) \<and> closed (cacheSynced (client s')) \<and>
          closes s = 1 \<and> closes s' = 1"
  using cacheSynced_closed_at_most_once
          [where ns = "''osm-system''" and name = "''osm-config''"
             and as = "[Receive, StopRequest, Poll NotYet, Poll HasSynced]"
             and bs = "[StopRequest, Poll HasSynced, Receive, Poll StopClosed, GetConfig]"]
  by (simp add: start_def run_after_wait_def close_chan_def NewConfigurator_def make_chan_def)

subsection \<open>The announcement relay\<close>



end
